theory Spec2Isabelle
  imports Main "HOL-Library.Multiset" "HOL-Library.Sublist"
begin

section \<open>Data model\<close>

text \<open>
  The operator tool keeps two tables in a hosted store: \<open>phone_numbers\<close> (the pool) and
  \<open>phone_calls_history\<close>. The Dashboard component claims the next number
  (\<open>fetchNextNumber\<close>) and records an outcome (\<open>updateStatus\<close>); the CallHistory
  component lists an operator's history (\<open>fetchHistory\<close>) and filters it on the client
  (\<open>filteredHistory\<close>).

  Field names of the source are kept, with a suffix naming the row type they belong to
  (\<open>_n\<close> for a row of \<open>phone_numbers\<close>, \<open>_h\<close> for a row of \<open>phone_calls_history\<close>,
  \<open>_j\<close> for the joined row \<open>PhoneCallHistory\<close> that the history query returns,
  \<open>_e\<close> for a \<open>CallHistoryEntry\<close>), since record fields share one name space.
  A timestamp is the instant that the ISO string of the source denotes, as a number.
\<close>

datatype call_status = answered | no_answer | rejected

type_synonym timestamp = nat

record PhoneNumber =
  id_n :: string
  phone_number_n :: string
  name_n :: string
  status_n :: "call_status option"
  assigned_to_n :: "string option"
  called_at_n :: "timestamp option"
  created_at_n :: timestamp

record phone_calls_history_row =
  id_h :: string
  phone_number_id_h :: string
  operator_id_h :: string
  status_h :: call_status
  called_at_h :: timestamp

record phone_numbers_embed =
  phone_number_j :: string
  name_j :: string

record PhoneCallHistory =
  id_j :: string
  status_j :: call_status
  called_at_j :: timestamp
  phone_numbers_j :: "phone_numbers_embed option"

record CallHistoryEntry =
  id_e :: string
  phone_number_e :: string
  name_e :: string
  status_e :: call_status
  called_at_e :: timestamp

text \<open>
  The store. A table is the list of its rows in the order in which the store scans them;
  a query without an \<open>order\<close> clause returns rows in that order.
\<close>

record db =
  phone_numbers :: "PhoneNumber list"
  phone_calls_history :: "phone_calls_history_row list"

text \<open>
  A store call answers \<open>{ data, error }\<close>. Whether a call fails (network, constraint) is
  decided outside the program, so every call of the model takes the error the store
  reports for it (\<open>None\<close>: the call succeeded). A call that reports an error has not
  changed the table. \<open>TypeError\<close> is the exception of reading a property of \<open>null\<close>.
\<close>

datatype error = StoreError string | TypeError

fun message :: "error \<Rightarrow> string" where
  "message (StoreError m) = m"
| "message TypeError = ''Cannot read properties of null''"

datatype toast = Plain string | Destructive string string

record Dashboard =
  currentNumber :: "PhoneNumber option"
  userId :: "string option"
  toasts :: "toast list"

text \<open>\<open>if (userId)\<close> on a \<open>string | null\<close>: \<open>null\<close> and the empty string are falsy.\<close>

definition truthy :: "string option \<Rightarrow> bool" where
  "truthy u = (case u of None \<Rightarrow> False | Some s \<Rightarrow> s \<noteq> [])"

section \<open>Claiming the next number\<close>

text \<open>
  The query of \<open>fetchNextNumber\<close>: \<open>.is('status', null)\<close>, then
  \<open>.or('assigned_to.is.null,assigned_to.eq.<userId>')\<close> when there is a user id and
  \<open>.is('assigned_to', null)\<close> otherwise, then \<open>.limit(1)\<close>. No order is requested.
  The user id is the identity provider's id of the session (a UUID), for which the filter
  string denotes the comparison with \<open>assigned_to\<close>. \<open>eligible\<close> is the conjunction of
  the two filters.
\<close>

definition next_number_query :: "string option \<Rightarrow> PhoneNumber list \<Rightarrow> PhoneNumber list" where
  "next_number_query uid rows =
     take 1
       (filter (\<lambda>r. if truthy uid then assigned_to_n r = None \<or> assigned_to_n r = uid
                     else assigned_to_n r = None)
          (filter (\<lambda>r. status_n r = None) rows))"

definition eligible :: "string option \<Rightarrow> PhoneNumber \<Rightarrow> bool" where
  "eligible uid r =
     (status_n r = None \<and>
      (if truthy uid then assigned_to_n r = None \<or> assigned_to_n r = uid
       else assigned_to_n r = None))"

text \<open>\<open>.update({ assigned_to: userId }).eq("id", selectedNumber.id)\<close>\<close>

definition update_assigned_to :: "string option \<Rightarrow> string \<Rightarrow> PhoneNumber list \<Rightarrow> PhoneNumber list" where
  "update_assigned_to uid i rows =
     map (\<lambda>r. if id_n r = i then r\<lparr>assigned_to_n := uid\<rparr> else r) rows"

text \<open>
  The body of the \<open>try\<close> block of \<open>fetchNextNumber\<close>: \<open>Inl e\<close> when it throws \<open>e\<close>,
  \<open>Inr x\<close> when it reaches \<open>setCurrentNumber(x)\<close>; the second component is the store
  afterwards. \<open>selectError\<close> and \<open>updateError\<close> are the errors the store reports for the
  query and for the assignment write.
\<close>

definition fetchNextNumber_try ::
  "string option \<Rightarrow> error option \<Rightarrow> error option \<Rightarrow> db \<Rightarrow> (error + PhoneNumber option) \<times> db" where
  "fetchNextNumber_try uid selectError updateError d =
     (case selectError of
        Some e \<Rightarrow> (Inl e, d)
      | None \<Rightarrow>
          (case next_number_query uid (phone_numbers d) of
             [] \<Rightarrow> (Inr None, d)
           | selectedNumber # _ \<Rightarrow>
               if truthy uid then
                 (case updateError of
                    Some e \<Rightarrow> (Inl e, d)
                  | None \<Rightarrow>
                      (Inr (Some selectedNumber),
                       d\<lparr>phone_numbers :=
                            update_assigned_to uid (id_n selectedNumber) (phone_numbers d)\<rparr>))
               else (Inr (Some selectedNumber), d)))"

definition fetchNextNumber ::
  "error option \<Rightarrow> error option \<Rightarrow> Dashboard \<times> db \<Rightarrow> Dashboard \<times> db" where
  "fetchNextNumber selectError updateError s =
     (case s of (ui, d) \<Rightarrow>
        (case fetchNextNumber_try (userId ui) selectError updateError d of
           (Inl e, d') \<Rightarrow> (ui\<lparr>toasts := toasts ui @ [Destructive ''Error'' (message e)]\<rparr>, d')
         | (Inr x, d') \<Rightarrow> (ui\<lparr>currentNumber := x\<rparr>, d')))"

text \<open>
  The effect that runs once when the Dashboard is mounted (\<open>initializeDashboard\<close>), as far
  as the number is concerned: without a session it navigates away; with a session it calls
  \<open>setUserId(session.user.id)\<close> and then \<open>fetchNextNumber()\<close>. That \<open>fetchNextNumber\<close> is
  the function of the render that created the effect, so the \<open>userId\<close> it reads is the one
  of that render (\<open>userId ui\<close>), not the id just set; its state updates and the new
  \<open>userId\<close> both reach the component.
\<close>

definition initializeDashboard ::
  "string option \<Rightarrow> error option \<Rightarrow> error option \<Rightarrow> Dashboard \<times> db \<Rightarrow> Dashboard \<times> db" where
  "initializeDashboard session selectError updateError s =
     (case s of (ui, d) \<Rightarrow>
        (case session of
           None \<Rightarrow> (ui, d)
         | Some user_id \<Rightarrow>
             (case fetchNextNumber selectError updateError (ui, d) of
                (ui', d') \<Rightarrow> (ui'\<lparr>userId := Some user_id\<rparr>, d'))))"

section \<open>Completing a call\<close>

text \<open>
  What \<open>updateStatus\<close> gets from outside: the two readings of the clock, the id the store
  gives the new history row, and the errors the store reports for the status write, the
  history insert and the two calls of the \<open>fetchNextNumber\<close> that follows.
\<close>

record completion_env =
  now_update :: timestamp
  update_error :: "error option"
  now_insert :: timestamp
  new_history_id :: string
  insert_error :: "error option"
  next_select_error :: "error option"
  next_assign_error :: "error option"

text \<open>\<open>.update({ status, called_at, assigned_to: null }).eq("id", currentNumber.id)\<close>\<close>

definition update_status_row :: "call_status \<Rightarrow> timestamp \<Rightarrow> string \<Rightarrow> PhoneNumber list \<Rightarrow> PhoneNumber list" where
  "update_status_row st now i rows =
     map (\<lambda>r. if id_n r = i
               then r\<lparr>status_n := Some st, called_at_n := Some now, assigned_to_n := None\<rparr>
               else r) rows"

text \<open>\<open>.insert({ phone_number_id, operator_id, status, called_at })\<close>\<close>

definition insert_history ::
  "string \<Rightarrow> string \<Rightarrow> string \<Rightarrow> call_status \<Rightarrow> timestamp \<Rightarrow>
   phone_calls_history_row list \<Rightarrow> phone_calls_history_row list" where
  "insert_history new_id pid oid st now rows =
     rows @ [\<lparr>id_h = new_id, phone_number_id_h = pid, operator_id_h = oid,
              status_h = st, called_at_h = now\<rparr>]"

text \<open>
  \<open>updateStatus\<close> is called by the three outcome buttons with \<open>"answered"\<close>,
  \<open>"no_answer"\<close> and \<open>"rejected"\<close>.
\<close>

definition updateStatus :: "call_status \<Rightarrow> completion_env \<Rightarrow> Dashboard \<times> db \<Rightarrow> Dashboard \<times> db" where
  "updateStatus st env s =
     (case s of (ui, d) \<Rightarrow>
        (case currentNumber ui of
           None \<Rightarrow> (ui, d)
         | Some cur \<Rightarrow>
             if \<not> truthy (userId ui) then (ui, d)
             else
               (case update_error env of
                  Some e \<Rightarrow> (ui\<lparr>toasts := toasts ui @ [Destructive ''Error'' (message e)]\<rparr>, d)
                | None \<Rightarrow>
                    (let d1 = d\<lparr>phone_numbers :=
                                  update_status_row st (now_update env) (id_n cur) (phone_numbers d)\<rparr>
                     in case insert_error env of
                          Some e \<Rightarrow>
                            (ui\<lparr>toasts := toasts ui @ [Destructive ''Error'' (message e)]\<rparr>, d1)
                        | None \<Rightarrow>
                            (let d2 = d1\<lparr>phone_calls_history :=
                                           insert_history (new_history_id env) (id_n cur)
                                             (the (userId ui)) st (now_insert env)
                                             (phone_calls_history d1)\<rparr>;
                                 ui1 = ui\<lparr>toasts := toasts ui @
                                            [Plain ''Call status updated successfully'']\<rparr>
                             in fetchNextNumber (next_select_error env) (next_assign_error env)
                                  (ui1, d2))))))"

section \<open>History listing and search\<close>

text \<open>
  The history query: \<open>.eq('operator_id', userId).order('called_at', { ascending: false })\<close>
  with the embedded \<open>phone_numbers (phone_number, name)\<close>, which the store resolves through
  \<open>phone_number_id\<close> when the query runs (\<open>null\<close> when no row has that id). Rows with
  the same \<open>called_at\<close> are kept in table order here; the store leaves their order open.
\<close>

fun insert_desc :: "phone_calls_history_row \<Rightarrow> phone_calls_history_row list \<Rightarrow> phone_calls_history_row list" where
  "insert_desc h [] = [h]"
| "insert_desc h (x # xs) =
     (if called_at_h x \<le> called_at_h h then h # x # xs else x # insert_desc h xs)"

fun order_called_at_desc :: "phone_calls_history_row list \<Rightarrow> phone_calls_history_row list" where
  "order_called_at_desc [] = []"
| "order_called_at_desc (h # hs) = insert_desc h (order_called_at_desc hs)"

definition embed_phone_numbers :: "PhoneNumber list \<Rightarrow> string \<Rightarrow> phone_numbers_embed option" where
  "embed_phone_numbers rows pid =
     map_option (\<lambda>r. \<lparr>phone_number_j = phone_number_n r, name_j = name_n r\<rparr>)
       (find (\<lambda>r. id_n r = pid) rows)"

definition join_row :: "db \<Rightarrow> phone_calls_history_row \<Rightarrow> PhoneCallHistory" where
  "join_row d h =
     \<lparr>id_j = id_h h, status_j = status_h h, called_at_j = called_at_h h,
      phone_numbers_j = embed_phone_numbers (phone_numbers d) (phone_number_id_h h)\<rparr>"

definition history_query :: "string \<Rightarrow> db \<Rightarrow> PhoneCallHistory list" where
  "history_query uid d =
     map (join_row d)
       (order_called_at_desc (filter (\<lambda>h. operator_id_h h = uid) (phone_calls_history d)))"

text \<open>
  \<open>data.map(entry => ({ ..., phone_number: entry.phone_numbers.phone_number, ... }))\<close>:
  reading \<open>entry.phone_numbers.phone_number\<close> throws when the embedded row is \<open>null\<close>.
\<close>

fun format_entries :: "PhoneCallHistory list \<Rightarrow> error + CallHistoryEntry list" where
  "format_entries [] = Inr []"
| "format_entries (entry # rest) =
     (case phone_numbers_j entry of
        None \<Rightarrow> Inl TypeError
      | Some p \<Rightarrow>
          (case format_entries rest of
             Inl e \<Rightarrow> Inl e
           | Inr es \<Rightarrow>
               Inr (\<lparr>id_e = id_j entry, phone_number_e = phone_number_j p, name_e = name_j p,
                     status_e = status_j entry, called_at_e = called_at_j entry\<rparr> # es)))"

definition fetchHistory_try :: "string \<Rightarrow> error option \<Rightarrow> db \<Rightarrow> error + CallHistoryEntry list" where
  "fetchHistory_try uid queryError d =
     (case queryError of
        Some e \<Rightarrow> Inl e
      | None \<Rightarrow> format_entries (history_query uid d))"

record CallHistory =
  history :: "CallHistoryEntry list"
  loading :: bool
  searchQuery :: string

definition fetchHistory :: "string \<Rightarrow> error option \<Rightarrow> db \<Rightarrow> CallHistory \<Rightarrow> CallHistory" where
  "fetchHistory uid queryError d c =
     (case fetchHistory_try uid queryError d of
        Inl e \<Rightarrow> c\<lparr>loading := False\<rparr>
      | Inr formattedData \<Rightarrow> c\<lparr>history := formattedData, loading := False\<rparr>)"

text \<open>
  \<open>String.prototype.includes\<close> (named \<open>includes_str\<close> here). A string is the list of
  the bytes of its UTF-8 form, as in a string literal; on well-formed strings a query
  occurs in a text as a run of bytes exactly when it occurs as a run of UTF-16 code units.
\<close>

fun includes_str :: "string \<Rightarrow> string \<Rightarrow> bool" where
  "includes_str [] q = (q = [])"
| "includes_str (c # s) q = (prefix q (c # s) \<or> includes_str s q)"

text \<open>
  \<open>String.prototype.toLowerCase\<close> belongs to the JavaScript runtime, not to this program.
  The search takes it as the parameter \<open>toLowerCase\<close>, so that what is proved of the search
  holds for whatever that function does, on every alphabet.
\<close>

definition entry_matches :: "(string \<Rightarrow> string) \<Rightarrow> string \<Rightarrow> CallHistoryEntry \<Rightarrow> bool" where
  "entry_matches toLowerCase q entry =
     (includes_str (toLowerCase (name_e entry)) (toLowerCase q) \<or>
      includes_str (phone_number_e entry) q)"

definition filteredHistory :: "(string \<Rightarrow> string) \<Rightarrow> CallHistory \<Rightarrow> CallHistoryEntry list" where
  "filteredHistory toLowerCase c = filter (entry_matches toLowerCase (searchQuery c)) (history c)"

text \<open>
  What \<open>toLowerCase\<close> does on a string of ASCII characters: the letters \<open>A\<close> to \<open>Z\<close>
  become \<open>a\<close> to \<open>z\<close>, every other ASCII character stays. It stands for the parameter in
  the examples only, whose strings are ASCII.
\<close>

definition toLowerCase_ascii_char :: "char \<Rightarrow> char" where
  "toLowerCase_ascii_char c =
     (let n = (of_char c :: nat) in if 65 \<le> n \<and> n \<le> 90 then char_of (n + 32) else c)"

definition toLowerCase_ascii :: "string \<Rightarrow> string" where
  "toLowerCase_ascii s = map toLowerCase_ascii_char s"

section \<open>Example states\<close>

definition number_alice :: PhoneNumber where
  "number_alice = \<lparr>id_n = ''1'', phone_number_n = ''+15551234'', name_n = ''Alice'',
     status_n = None, assigned_to_n = None, called_at_n = None, created_at_n = 1\<rparr>"

definition number_bob :: PhoneNumber where
  "number_bob = \<lparr>id_n = ''2'', phone_number_n = ''+15555678'', name_n = ''Bob'',
     status_n = None, assigned_to_n = None, called_at_n = None, created_at_n = 2\<rparr>"

definition number_carol :: PhoneNumber where
  "number_carol = \<lparr>id_n = ''3'', phone_number_n = ''+15559012'', name_n = ''Carol'',
     status_n = None, assigned_to_n = Some ''opB'', called_at_n = None, created_at_n = 0\<rparr>"

text \<open>A pool whose scan order is not the order of creation: Bob's row was created later.\<close>

definition pool_example :: db where
  "pool_example = \<lparr>phone_numbers = [number_bob, number_alice], phone_calls_history = []\<rparr>"

definition pool_claimed :: db where
  "pool_claimed =
     \<lparr>phone_numbers = [number_carol, number_alice\<lparr>assigned_to_n := Some ''opA''\<rparr>],
      phone_calls_history = []\<rparr>"

definition dashboard_opA :: Dashboard where
  "dashboard_opA = \<lparr>currentNumber = None, userId = Some ''opA'', toasts = []\<rparr>"

definition dashboard_anonymous :: Dashboard where
  "dashboard_anonymous = \<lparr>currentNumber = None, userId = None, toasts = []\<rparr>"

definition number_alice_opA :: PhoneNumber where
  "number_alice_opA = number_alice\<lparr>assigned_to_n := Some ''opA''\<rparr>"

definition dashboard_calling :: Dashboard where
  "dashboard_calling =
     \<lparr>currentNumber = Some number_alice_opA, userId = Some ''opA'', toasts = []\<rparr>"

definition pool_calling :: db where
  "pool_calling = \<lparr>phone_numbers = [number_alice_opA, number_bob], phone_calls_history = []\<rparr>"

definition env_ok :: completion_env where
  "env_ok = \<lparr>now_update = 100, update_error = None, now_insert = 101,
     new_history_id = ''h1'', insert_error = None,
     next_select_error = None, next_assign_error = None\<rparr>"

definition env_insert_fails :: completion_env where
  "env_insert_fails = env_ok\<lparr>insert_error := Some (StoreError ''insert failed'')\<rparr>"

definition number_alice_answered :: PhoneNumber where
  "number_alice_answered =
     number_alice\<lparr>status_n := Some answered, called_at_n := Some 100\<rparr>"

definition history_row_h1 :: phone_calls_history_row where
  "history_row_h1 = \<lparr>id_h = ''h1'', phone_number_id_h = ''1'', operator_id_h = ''opA'',
     status_h = answered, called_at_h = 101\<rparr>"

definition store_after_call :: db where
  "store_after_call =
     \<lparr>phone_numbers = [number_alice_answered, number_bob\<lparr>assigned_to_n := Some ''opA''\<rparr>],
      phone_calls_history = [history_row_h1]\<rparr>"

definition store_renamed :: db where
  "store_renamed =
     \<lparr>phone_numbers =
        [number_alice_answered\<lparr>phone_number_n := ''+15550000'', name_n := ''Alicia''\<rparr>,
         number_bob\<lparr>assigned_to_n := Some ''opA''\<rparr>],
      phone_calls_history = [history_row_h1]\<rparr>"

definition history_row_h2 :: phone_calls_history_row where
  "history_row_h2 = \<lparr>id_h = ''h2'', phone_number_id_h = ''2'', operator_id_h = ''opA'',
     status_h = no_answer, called_at_h = 205\<rparr>"

definition history_row_h3 :: phone_calls_history_row where
  "history_row_h3 = \<lparr>id_h = ''h3'', phone_number_id_h = ''3'', operator_id_h = ''opB'',
     status_h = rejected, called_at_h = 150\<rparr>"

definition store_three_calls :: db where
  "store_three_calls =
     \<lparr>phone_numbers = [number_alice_answered, number_bob, number_carol],
      phone_calls_history = [history_row_h1, history_row_h3, history_row_h2]\<rparr>"

definition callHistory_initial :: CallHistory where
  "callHistory_initial = \<lparr>history = [], loading = True, searchQuery = []\<rparr>"

definition entry_h1 :: CallHistoryEntry where
  "entry_h1 = \<lparr>id_e = ''h1'', phone_number_e = ''+15551234'', name_e = ''Alice'',
     status_e = answered, called_at_e = 101\<rparr>"

definition entry_h2 :: CallHistoryEntry where
  "entry_h2 = \<lparr>id_e = ''h2'', phone_number_e = ''+15555678'', name_e = ''Bob'',
     status_e = no_answer, called_at_e = 205\<rparr>"

definition entry_extension :: CallHistoryEntry where
  "entry_extension = \<lparr>id_e = ''h9'', phone_number_e = ''+15551234x9'', name_e = ''Alice'',
     status_e = answered, called_at_e = 101\<rparr>"



text \<open>The state of the Dashboard at its first render.\<close>

definition dashboard_mounted :: Dashboard where
  "dashboard_mounted = \<lparr>currentNumber = None, userId = None, toasts = []\<rparr>"

definition callHistory_search :: "string \<Rightarrow> CallHistory" where
  "callHistory_search q =
     \<lparr>history = [entry_extension, entry_h2], loading = False, searchQuery = q\<rparr>"

lemmas example_defs =
  number_alice_def number_bob_def number_carol_def number_alice_opA_def
  number_alice_answered_def history_row_h1_def
  dashboard_calling_def pool_calling_def env_ok_def env_insert_fails_def

lemmas history_example_defs =
  store_after_call_def store_renamed_def store_three_calls_def
  history_row_h2_def history_row_h3_def callHistory_initial_def entry_h1_def entry_h2_def

lemmas history_query_defs =
  fetchHistory_def fetchHistory_try_def history_query_def join_row_def embed_phone_numbers_def

section \<open>Properties of claiming\<close>

lemma next_number_query_eligible:
  "next_number_query uid rows = take 1 (filter (eligible uid) rows)"
  unfolding next_number_query_def filter_filter
  by (rule arg_cong [where f = "take 1"], rule filter_cong) (auto simp: eligible_def)

lemma take1_filter_find:
  "take (Suc 0) (filter P xs) = (case find P xs of None \<Rightarrow> [] | Some x \<Rightarrow> [x])"
  by (induction xs) auto

lemma next_number_query_find:
  "next_number_query uid rows = (case find (eligible uid) rows of None \<Rightarrow> [] | Some x \<Rightarrow> [x])"
  by (simp add: next_number_query_eligible take1_filter_find)

lemma find_SomeD: "find P xs = Some x \<Longrightarrow> P x \<and> x \<in> set xs"
  by (induction xs) (auto split: if_splits)

lemma find_first:
  assumes "\<forall>r\<in>set pre. \<not> P r" and "P c"
  shows "find P (pre @ c # post) = Some c"
  using assms by (induction pre) auto

lemma fetchNextNumber_try_returned:
  assumes "fetchNextNumber_try uid se ue d = (Inr (Some n), d')"
  shows "find (eligible uid) (phone_numbers d) = Some n"
  using assms
  by (auto simp: fetchNextNumber_try_def next_number_query_find
           split: option.splits if_splits list.splits)

text \<open>
  When the \<open>userId\<close> that \<open>fetchNextNumber\<close> reads is the operator's id (the call that
  \<open>updateStatus\<close> makes), a candidate \<open>c\<close> is found and the store accepts the write, the
  row with the id of \<open>c\<close> gets \<open>assigned_to\<close> set to the operator and \<open>c\<close> becomes the
  current number. When the store rejects the write, no number is returned.
\<close>

lemma fetchNextNumber_assigns:
  assumes "userId ui = Some operatorId" and "operatorId \<noteq> []"
    and "find (eligible (Some operatorId)) (phone_numbers d) = Some c"
  shows "c \<in> set (phone_numbers d) \<and>
         fetchNextNumber None None (ui, d) =
           (ui\<lparr>currentNumber := Some c\<rparr>,
            d\<lparr>phone_numbers :=
                 map (\<lambda>r. if id_n r = id_n c then r\<lparr>assigned_to_n := Some operatorId\<rparr> else r)
                   (phone_numbers d)\<rparr>) \<and>
         (\<forall>e. fetchNextNumber None (Some e) (ui, d) =
           (ui\<lparr>toasts := toasts ui @ [Destructive ''Error'' (message e)]\<rparr>, d))"
  using assms find_SomeD [OF assms(3)]
  by (simp add: fetchNextNumber_def fetchNextNumber_try_def next_number_query_find truthy_def
        update_assigned_to_def)

lemma fetchNextNumber_assigns_example:
  "fetchNextNumber None None (dashboard_opA, pool_example) =
     (dashboard_opA\<lparr>currentNumber := Some number_bob\<rparr>,
      \<lparr>phone_numbers = [number_bob\<lparr>assigned_to_n := Some ''opA''\<rparr>, number_alice],
       phone_calls_history = []\<rparr>)"
  using fetchNextNumber_assigns [of dashboard_opA "''opA''" pool_example number_bob]
  by (simp add: dashboard_opA_def pool_example_def number_bob_def number_alice_def
        eligible_def truthy_def)

text \<open>
  The call made when the Dashboard is mounted reads the \<open>userId\<close> of the first render,
  which is \<open>null\<close>, although the operator is authenticated: it never writes to the store.
\<close>

lemma initializeDashboard_store_unchanged:
  assumes "userId ui = None"
  shows "snd (initializeDashboard session selectError updateError (ui, d)) = d"
  using assms
  by (simp add: initializeDashboard_def fetchNextNumber_def fetchNextNumber_try_def truthy_def
        split: option.splits list.splits prod.splits sum.splits)

text \<open>
  C1 does not hold of the code. Operator \<open>opA\<close> is authenticated and opens the Dashboard on
  \<open>pool_example\<close>: Bob's row is eligible and becomes the current number, but the store is
  left as it was, so Bob's \<open>assigned_to\<close> is still \<open>null\<close>. The claim asks for the write
  \<open>assigned_to = opA\<close> before the number is returned, and the code means to make it (the
  same function makes it when called from \<open>updateStatus\<close>).
\<close>

theorem initial_claim_skips_assignment:
  "initializeDashboard (Some ''opA'') None None (dashboard_mounted, pool_example) =
     (\<lparr>currentNumber = Some number_bob, userId = Some ''opA'', toasts = []\<rparr>, pool_example) \<and>
   number_bob \<in> set (phone_numbers pool_example) \<and>
   eligible (Some ''opA'') number_bob \<and>
   assigned_to_n number_bob = None"
  by (simp add: initializeDashboard_def fetchNextNumber_def fetchNextNumber_try_def
        next_number_query_def truthy_def eligible_def dashboard_mounted_def pool_example_def
        number_bob_def number_alice_def)

text \<open>
  C2. Whatever the pool, the caller and the store's answers, a number that
  \<open>fetchNextNumber\<close> returns is a row of the pool whose status is unset.
\<close>

theorem claim_next_status_unset:
  assumes "fetchNextNumber_try uid selectError updateError d = (Inr (Some n), d')"
  shows "n \<in> set (phone_numbers d) \<and> status_n n = None"
  using find_SomeD [OF fetchNextNumber_try_returned [OF assms]]
  by (simp add: eligible_def)

theorem claim_next_status_unset_witness:
  "fetchNextNumber_try (Some ''opA'') None None pool_example =
     (Inr (Some number_bob),
      \<lparr>phone_numbers = [number_bob\<lparr>assigned_to_n := Some ''opA''\<rparr>, number_alice],
       phone_calls_history = []\<rparr>) \<and>
   number_bob \<in> set (phone_numbers pool_example) \<and> status_n number_bob = None"
proof -
  have run: "fetchNextNumber_try (Some ''opA'') None None pool_example =
     (Inr (Some number_bob),
      \<lparr>phone_numbers = [number_bob\<lparr>assigned_to_n := Some ''opA''\<rparr>, number_alice],
       phone_calls_history = []\<rparr>)"
    by (simp add: fetchNextNumber_try_def next_number_query_def update_assigned_to_def
          truthy_def pool_example_def number_bob_def number_alice_def)
  show ?thesis using run claim_next_status_unset [OF run] by simp
qed

text \<open>
  C3. A number that \<open>fetchNextNumber\<close> returns is, as read from the pool, unassigned or
  assigned to the caller; it is never assigned to another operator.
\<close>

theorem claim_next_not_others:
  assumes "fetchNextNumber_try uid selectError updateError d = (Inr (Some n), d')"
  shows "assigned_to_n n = None \<or> assigned_to_n n = uid"
  using find_SomeD [OF fetchNextNumber_try_returned [OF assms]]
  by (auto simp: eligible_def split: if_splits)

theorem claim_next_not_others_witness:
  "fetchNextNumber_try (Some ''opA'') None None pool_claimed =
     (Inr (Some (number_alice\<lparr>assigned_to_n := Some ''opA''\<rparr>)), pool_claimed) \<and>
   assigned_to_n (number_alice\<lparr>assigned_to_n := Some ''opA''\<rparr>) = Some ''opA''"
proof -
  have run: "fetchNextNumber_try (Some ''opA'') None None pool_claimed =
     (Inr (Some (number_alice\<lparr>assigned_to_n := Some ''opA''\<rparr>)), pool_claimed)"
    by (simp add: fetchNextNumber_try_def next_number_query_def update_assigned_to_def
          truthy_def pool_claimed_def number_carol_def number_alice_def)
  show ?thesis using run claim_next_not_others [OF run] by simp
qed

text \<open>
  C8, as stated, fails: the query asks for no order, so the number returned is the first
  eligible row in the store's scan order. In \<open>pool_example\<close> that is Bob's row, although
  Alice's row is eligible and was created earlier.
\<close>

theorem claim_next_created_at_counterexample:
  "fst (fetchNextNumber_try (Some ''opA'') None None pool_example) = Inr (Some number_bob) \<and>
   number_alice \<in> set (phone_numbers pool_example) \<and>
   eligible (Some ''opA'') number_alice \<and>
   created_at_n number_alice < created_at_n number_bob"
  by (simp add: fetchNextNumber_try_def next_number_query_def update_assigned_to_def
        truthy_def eligible_def pool_example_def number_bob_def number_alice_def)

text \<open>
  C8, amended. For every pool with an eligible candidate, \<open>fetchNextNumber\<close> returns the
  first eligible row in the order in which the store scans the pool (provided the store
  accepts the assignment write, when there is one); creation time plays no part.
\<close>

theorem claim_next_first_in_store_order:
  assumes "phone_numbers d = pre @ c # post"
    and "\<forall>r\<in>set pre. \<not> eligible uid r"
    and "eligible uid c"
    and "truthy uid \<longrightarrow> updateError = None"
  shows "fst (fetchNextNumber_try uid None updateError d) = Inr (Some c)"
proof -
  have "find (eligible uid) (phone_numbers d) = Some c"
    using assms(1-3) by (simp add: find_first)
  then show ?thesis using assms(4)
    by (simp add: fetchNextNumber_try_def next_number_query_find)
qed

theorem claim_next_first_in_store_order_witness:
  "fst (fetchNextNumber_try (Some ''opA'') None None pool_claimed) =
     Inr (Some (number_alice\<lparr>assigned_to_n := Some ''opA''\<rparr>))"
  using claim_next_first_in_store_order [of pool_claimed "[number_carol]"
      "number_alice\<lparr>assigned_to_n := Some ''opA''\<rparr>" "[]" "Some ''opA''" None]
  by (simp add: pool_claimed_def eligible_def truthy_def number_carol_def number_alice_def)

text \<open>
  C10. Without an operator identity (\<open>userId\<close> is \<open>null\<close>) \<open>fetchNextNumber\<close> never
  changes the store, and when the query succeeds the current number becomes the first
  row with unset status and \<open>assigned_to\<close> \<open>null\<close>, if there is one.
\<close>

theorem claim_next_without_identity:
  assumes "userId ui = None"
  shows "snd (fetchNextNumber selectError updateError (ui, d)) = d \<and>
         fst (fetchNextNumber None updateError (ui, d)) =
           ui\<lparr>currentNumber :=
                find (\<lambda>r. status_n r = None \<and> assigned_to_n r = None) (phone_numbers d)\<rparr>"
proof -
  have q: "next_number_query None rows =
      (case find (\<lambda>r. status_n r = None \<and> assigned_to_n r = None) rows of
         None \<Rightarrow> [] | Some x \<Rightarrow> [x])" for rows
  proof -
    have "eligible None = (\<lambda>r. status_n r = None \<and> assigned_to_n r = None)"
      by (rule ext) (simp add: eligible_def truthy_def)
    then show ?thesis by (simp add: next_number_query_find)
  qed
  show ?thesis using assms
    by (simp add: fetchNextNumber_def fetchNextNumber_try_def q truthy_def
          split: option.splits)
qed

theorem claim_next_without_identity_witness:
  "fetchNextNumber None None (dashboard_anonymous, pool_claimed) =
     (dashboard_anonymous, pool_claimed) \<and>
   fetchNextNumber None None (dashboard_anonymous, pool_example) =
     (dashboard_anonymous\<lparr>currentNumber := Some number_bob\<rparr>, pool_example)"
  using claim_next_without_identity [of dashboard_anonymous None None pool_claimed]
    claim_next_without_identity [of dashboard_anonymous None None pool_example]
  by (simp add: prod_eq_iff dashboard_anonymous_def pool_claimed_def pool_example_def
        number_carol_def number_alice_def number_bob_def)

section \<open>Properties of completing a call\<close>

lemma fetchNextNumber_try_effect:
  assumes "fetchNextNumber_try uid se ue d = (res, d')"
  shows "d' = d \<or>
         (\<exists>c\<in>set (phone_numbers d). status_n c = None \<and>
            d' = d\<lparr>phone_numbers := update_assigned_to uid (id_n c) (phone_numbers d)\<rparr>)"
proof (cases "find (eligible uid) (phone_numbers d)")
  case None
  then show ?thesis using assms
    by (auto simp: fetchNextNumber_try_def next_number_query_find split: option.splits)
next
  case (Some c)
  then have "c \<in> set (phone_numbers d)" "status_n c = None"
    using find_SomeD [of "eligible uid" "phone_numbers d" c] by (simp_all add: eligible_def)
  then show ?thesis using assms Some
    by (auto simp: fetchNextNumber_try_def next_number_query_find split: option.splits if_splits)
qed

lemma update_assigned_to_other_id:
  assumes "r \<in> set (update_assigned_to uid j rows)" and "id_n r \<noteq> j"
  shows "r \<in> set rows"
  using assms by (auto simp: update_assigned_to_def split: if_splits)

lemma update_assigned_to_ids:
  "map id_n (update_assigned_to uid j rows) = map id_n rows"
  by (simp add: update_assigned_to_def)

lemma fetchNextNumber_keeps_worked:
  assumes run: "fetchNextNumber se ue (ui, d) = (ui', d')"
    and worked: "\<forall>r\<in>set (phone_numbers d). id_n r = i \<longrightarrow> status_n r \<noteq> None"
  shows "phone_calls_history d' = phone_calls_history d"
    and "map id_n (phone_numbers d') = map id_n (phone_numbers d)"
    and "\<forall>r\<in>set (phone_numbers d'). id_n r = i \<longrightarrow> r \<in> set (phone_numbers d)"
proof -
  obtain res where t: "fetchNextNumber_try (userId ui) se ue d = (res, d')"
    using run by (auto simp: fetchNextNumber_def split: prod.splits sum.splits)
  from fetchNextNumber_try_effect [OF t]
  consider "d' = d"
    | c where "c \<in> set (phone_numbers d)" "status_n c = None"
        "d' = d\<lparr>phone_numbers := update_assigned_to (userId ui) (id_n c) (phone_numbers d)\<rparr>"
    by blast
  then have "phone_calls_history d' = phone_calls_history d \<and>
             map id_n (phone_numbers d') = map id_n (phone_numbers d) \<and>
             (\<forall>r\<in>set (phone_numbers d'). id_n r = i \<longrightarrow> r \<in> set (phone_numbers d))"
  proof cases
    case 1
    then show ?thesis by simp
  next
    case 2
    have "id_n c \<noteq> i" using 2(1,2) worked by auto
    then show ?thesis using 2(3)
      by (auto simp: update_assigned_to_ids dest: update_assigned_to_other_id)
  qed
  then show "phone_calls_history d' = phone_calls_history d"
    and "map id_n (phone_numbers d') = map id_n (phone_numbers d)"
    and "\<forall>r\<in>set (phone_numbers d'). id_n r = i \<longrightarrow> r \<in> set (phone_numbers d)"
    by simp_all
qed

lemma update_status_row_written:
  assumes "r \<in> set (update_status_row st now i rows)" and "id_n r = i"
  shows "status_n r = Some st \<and> assigned_to_n r = None \<and> called_at_n r = Some now"
proof -
  from assms(1) obtain r0 where r0:
    "r = (if id_n r0 = i
          then r0\<lparr>status_n := Some st, called_at_n := Some now, assigned_to_n := None\<rparr>
          else r0)"
    unfolding update_status_row_def set_map by blast
  show ?thesis
  proof (cases "id_n r0 = i")
    case True
    then show ?thesis using r0 by simp
  next
    case False
    then show ?thesis using r0 assms(2) by simp
  qed
qed

lemma update_status_row_ids:
  "map id_n (update_status_row st now i rows) = map id_n rows"
  by (simp add: update_status_row_def)

lemma updateStatus_example_run:
  "updateStatus answered env_ok (dashboard_calling, pool_calling) =
     (\<lparr>currentNumber = Some number_bob, userId = Some ''opA'',
       toasts = [Plain ''Call status updated successfully'']\<rparr>,
      \<lparr>phone_numbers = [number_alice_answered, number_bob\<lparr>assigned_to_n := Some ''opA''\<rparr>],
       phone_calls_history = [history_row_h1]\<rparr>)"
  by (simp add: updateStatus_def fetchNextNumber_def fetchNextNumber_try_def
        next_number_query_def update_assigned_to_def update_status_row_def insert_history_def
        truthy_def example_defs)

text \<open>
  C4. When the operator \<open>operatorId\<close> completes the current number with an outcome, the pool
  has a row with the number's id and both writes succeed, then afterwards (the following
  \<open>fetchNextNumber\<close> included, whatever the store answers to it) every row with that id
  has the outcome as status, \<open>assigned_to\<close> \<open>null\<close> and \<open>called_at\<close> set, and the history
  is the old history followed by one new row with the number's id, the operator's id and
  the outcome.
\<close>

theorem complete_success:
  assumes cur: "currentNumber ui = Some cur"
    and op: "userId ui = Some operatorId" "operatorId \<noteq> []"
    and ok: "update_error env = None" "insert_error env = None"
    and present: "\<exists>r\<in>set (phone_numbers d). id_n r = id_n cur"
    and run: "updateStatus outcome env (ui, d) = (ui', d')"
  shows "(\<exists>r\<in>set (phone_numbers d'). id_n r = id_n cur) \<and>
         (\<forall>r\<in>set (phone_numbers d'). id_n r = id_n cur \<longrightarrow>
            status_n r = Some outcome \<and> assigned_to_n r = None \<and>
            called_at_n r = Some (now_update env)) \<and>
         phone_calls_history d' = phone_calls_history d @
           [\<lparr>id_h = new_history_id env, phone_number_id_h = id_n cur,
             operator_id_h = operatorId, status_h = outcome, called_at_h = now_insert env\<rparr>]"
proof -
  define rows1 where "rows1 = update_status_row outcome (now_update env) (id_n cur) (phone_numbers d)"
  define d2 where "d2 = d\<lparr>phone_numbers := rows1,
    phone_calls_history := insert_history (new_history_id env) (id_n cur) operatorId outcome
      (now_insert env) (phone_calls_history d)\<rparr>"
  define ui1 where "ui1 = ui\<lparr>toasts := toasts ui @ [Plain ''Call status updated successfully'']\<rparr>"
  have next_run: "fetchNextNumber (next_select_error env) (next_assign_error env) (ui1, d2) = (ui', d')"
    using run cur op ok
    unfolding updateStatus_def rows1_def d2_def ui1_def
    by (simp add: truthy_def Let_def)
  have written: "\<forall>r\<in>set (phone_numbers d2). id_n r = id_n cur \<longrightarrow>
     status_n r = Some outcome \<and> assigned_to_n r = None \<and> called_at_n r = Some (now_update env)"
  proof (intro ballI impI)
    fix r assume r: "r \<in> set (phone_numbers d2)" "id_n r = id_n cur"
    from r(1) have "r \<in> set (update_status_row outcome (now_update env) (id_n cur) (phone_numbers d))"
      by (simp add: d2_def rows1_def)
    then show "status_n r = Some outcome \<and> assigned_to_n r = None \<and>
        called_at_n r = Some (now_update env)"
      using r(2) by (rule update_status_row_written)
  qed
  have worked: "\<forall>r\<in>set (phone_numbers d2). id_n r = id_n cur \<longrightarrow> status_n r \<noteq> None"
    using written by (metis option.distinct(1))
  note keep = fetchNextNumber_keeps_worked [OF next_run worked]
  obtain r0 where r0: "r0 \<in> set (phone_numbers d)" "id_n r0 = id_n cur"
    using present by blast
  have "id_n r0 \<in> set (map id_n (phone_numbers d))" using r0(1) by simp
  then have "id_n cur \<in> set (map id_n (phone_numbers d))" by (simp only: r0(2))
  then have "id_n cur \<in> set (map id_n (phone_numbers d'))"
    by (simp only: keep(2)) (simp add: d2_def rows1_def update_status_row_ids)
  then have a: "\<exists>r\<in>set (phone_numbers d'). id_n r = id_n cur" by auto
  have b: "\<forall>r\<in>set (phone_numbers d'). id_n r = id_n cur \<longrightarrow>
            status_n r = Some outcome \<and> assigned_to_n r = None \<and>
            called_at_n r = Some (now_update env)"
    using keep(3) written by blast
  have c: "phone_calls_history d' = phone_calls_history d @
           [\<lparr>id_h = new_history_id env, phone_number_id_h = id_n cur,
             operator_id_h = operatorId, status_h = outcome, called_at_h = now_insert env\<rparr>]"
    using keep(1) by (simp add: d2_def insert_history_def)
  show ?thesis using a b c by blast
qed





theorem complete_success_witness:
  "updateStatus answered env_ok (dashboard_calling, pool_calling) =
     (\<lparr>currentNumber = Some number_bob, userId = Some ''opA'',
       toasts = [Plain ''Call status updated successfully'']\<rparr>,
      \<lparr>phone_numbers = [number_alice_answered, number_bob\<lparr>assigned_to_n := Some ''opA''\<rparr>],
       phone_calls_history = [history_row_h1]\<rparr>) \<and>
   status_n number_alice_answered = Some answered \<and>
   assigned_to_n number_alice_answered = None \<and>
   called_at_n number_alice_answered = Some 100 \<and>
   phone_number_id_h history_row_h1 = id_n number_alice_opA \<and>
   operator_id_h history_row_h1 = ''opA'' \<and> status_h history_row_h1 = answered"
proof -
  have h1: "currentNumber dashboard_calling = Some number_alice_opA"
    and h2: "userId dashboard_calling = Some ''opA''" and h3: "''opA'' \<noteq> []"
    and h4: "update_error env_ok = None" and h5: "insert_error env_ok = None"
    by (simp_all add: dashboard_calling_def env_ok_def)
  have "number_alice_opA \<in> set (phone_numbers pool_calling)"
    by (simp add: pool_calling_def)
  then have h6: "\<exists>r\<in>set (phone_numbers pool_calling). id_n r = id_n number_alice_opA"
    by blast
  note w = complete_success [OF h1 h2 h3 h4 h5 h6 updateStatus_example_run]
  from w have a: "\<forall>r\<in>set [number_alice_answered, number_bob\<lparr>assigned_to_n := Some ''opA''\<rparr>].
      id_n r = id_n number_alice_opA \<longrightarrow>
      status_n r = Some answered \<and> assigned_to_n r = None \<and>
      called_at_n r = Some (now_update env_ok)"
    by simp
  have "number_alice_answered \<in> set [number_alice_answered, number_bob\<lparr>assigned_to_n := Some ''opA''\<rparr>]"
    by simp
  moreover have "id_n number_alice_answered = id_n number_alice_opA"
    by (simp add: number_alice_answered_def number_alice_opA_def)
  ultimately have b: "status_n number_alice_answered = Some answered \<and>
      assigned_to_n number_alice_answered = None \<and>
      called_at_n number_alice_answered = Some (now_update env_ok)"
    using a by blast
  from w have c: "[history_row_h1] = [] @
           [\<lparr>id_h = new_history_id env_ok, phone_number_id_h = id_n number_alice_opA,
             operator_id_h = ''opA'', status_h = answered, called_at_h = now_insert env_ok\<rparr>]"
    by (simp add: pool_calling_def)
  have d: "now_update env_ok = 100" by (simp add: env_ok_def)
  show ?thesis using updateStatus_example_run b c unfolding d
    by (simp add: history_row_h1_def number_alice_opA_def number_alice_def)
qed

text \<open>
  C5. When the status write succeeds and the history insert fails, \<open>updateStatus\<close> reports
  the failure (an error toast and no success toast), keeps the first write (status,
  \<open>called_at\<close> and the cleared \<open>assigned_to\<close> stay) and leaves the history table as it
  was; it does not go on to the next number.
\<close>

theorem complete_partial_failure:
  assumes "currentNumber ui = Some cur" and "truthy (userId ui)"
    and "update_error env = None" and "insert_error env = Some e"
  shows "updateStatus outcome env (ui, d) =
           (ui\<lparr>toasts := toasts ui @ [Destructive ''Error'' (message e)]\<rparr>,
            d\<lparr>phone_numbers :=
                 map (\<lambda>r. if id_n r = id_n cur
                           then r\<lparr>status_n := Some outcome, called_at_n := Some (now_update env),
                                  assigned_to_n := None\<rparr>
                           else r) (phone_numbers d)\<rparr>)"
  using assms by (simp add: updateStatus_def update_status_row_def)

theorem complete_partial_failure_witness:
  "updateStatus answered env_insert_fails (dashboard_calling, pool_calling) =
     (dashboard_calling\<lparr>toasts := [Destructive ''Error'' ''insert failed'']\<rparr>,
      \<lparr>phone_numbers = [number_alice_answered, number_bob], phone_calls_history = []\<rparr>)"
  using complete_partial_failure [of dashboard_calling number_alice_opA env_insert_fails
      "StoreError ''insert failed''" answered pool_calling]
  by (simp add: truthy_def example_defs)


section \<open>Properties of the history listing\<close>

lemma mset_insert_desc: "mset (insert_desc h xs) = add_mset h (mset xs)"
  by (induction xs) auto

lemma mset_order_called_at_desc: "mset (order_called_at_desc xs) = mset xs"
  by (induction xs) (auto simp: mset_insert_desc)




lemma format_entries_Inr:
  "format_entries js = Inr es \<Longrightarrow>
   list_all2 (\<lambda>j e. id_e e = id_j j \<and> status_e e = status_j j \<and> called_at_e e = called_at_j j \<and>
                phone_numbers_j j = Some \<lparr>phone_number_j = phone_number_e e, name_j = name_e e\<rparr>)
     js es"
proof (induction js arbitrary: es)
  case Nil
  then show ?case by simp
next
  case (Cons j js)
  from Cons.prems obtain p es' where p: "phone_numbers_j j = Some p"
    and rest: "format_entries js = Inr es'"
    and es: "es = \<lparr>id_e = id_j j, phone_number_e = phone_number_j p, name_e = name_j p,
                    status_e = status_j j, called_at_e = called_at_j j\<rparr> # es'"
    by (auto split: option.splits sum.splits)
  from Cons.IH [OF rest] show ?case using p es by simp
qed



lemma list_all2_pick:
  "list_all2 P xs ys \<Longrightarrow> x \<in> set xs \<Longrightarrow> \<exists>y\<in>set ys. P x y"
  by (induction rule: list_all2_induct) auto





text \<open>
  C6, as stated, fails. The history row that \<open>updateStatus\<close> inserts holds the id of the
  number, not its phone number and name; the listing reads both from the row of
  \<open>phone_numbers\<close> when it runs. After the call of the example, changing the phone number
  and name of Alice's row changes what the listing reports for the unchanged history row.
\<close>

theorem history_snapshot_counterexample:
  "snd (updateStatus answered env_ok (dashboard_calling, pool_calling)) = store_after_call \<and>
   fetchHistory_try ''opA'' None store_after_call = Inr [entry_h1] \<and>
   phone_calls_history store_renamed = phone_calls_history store_after_call \<and>
   fetchHistory_try ''opA'' None store_renamed =
     Inr [entry_h1\<lparr>phone_number_e := ''+15550000'', name_e := ''Alicia''\<rparr>]"
proof -
  have "snd (updateStatus answered env_ok (dashboard_calling, pool_calling)) = store_after_call"
    by (simp add: updateStatus_example_run store_after_call_def)
  moreover have "fetchHistory_try ''opA'' None store_after_call = Inr [entry_h1]"
    by (simp add: history_query_defs history_example_defs example_defs)
  moreover have "phone_calls_history store_renamed = phone_calls_history store_after_call"
    by (simp add: store_renamed_def store_after_call_def)
  moreover have "fetchHistory_try ''opA'' None store_renamed =
      Inr [entry_h1\<lparr>phone_number_e := ''+15550000'', name_e := ''Alicia''\<rparr>]"
    by (simp add: history_query_defs history_example_defs example_defs)
  ultimately show ?thesis by simp
qed

lemma history_entry_of_row:
  assumes run: "fetchHistory_try uid None d = Inr es"
    and h: "h \<in> set (phone_calls_history d)" "operator_id_h h = uid"
  shows "\<exists>e\<in>set es. \<exists>r.
           id_e e = id_h h \<and> status_e e = status_h h \<and> called_at_e e = called_at_h h \<and>
           find (\<lambda>r. id_n r = phone_number_id_h h) (phone_numbers d) = Some r \<and>
           phone_number_e e = phone_number_n r \<and> name_e e = name_n r"
proof -
  define hs where "hs = order_called_at_desc (filter (\<lambda>h. operator_id_h h = uid) (phone_calls_history d))"
  have "mset hs = mset (filter (\<lambda>h. operator_id_h h = uid) (phone_calls_history d))"
    by (simp add: hs_def mset_order_called_at_desc)
  from mset_eq_setD [OF this] h have mem: "join_row d h \<in> set (map (join_row d) hs)" by simp
  from run have "format_entries (map (join_row d) hs) = Inr es"
    by (simp add: fetchHistory_try_def history_query_def hs_def)
  from list_all2_pick [OF format_entries_Inr [OF this] mem]
  obtain e where e: "e \<in> set es" "id_e e = id_h h" "status_e e = status_h h"
    "called_at_e e = called_at_h h"
    "embed_phone_numbers (phone_numbers d) (phone_number_id_h h) =
       Some \<lparr>phone_number_j = phone_number_e e, name_j = name_e e\<rparr>"
    by (auto simp: join_row_def)
  from e(5) obtain r where r: "find (\<lambda>r. id_n r = phone_number_id_h h) (phone_numbers d) = Some r"
    "phone_number_e e = phone_number_n r" "name_e e = name_n r"
    by (auto simp: embed_phone_numbers_def)
  show ?thesis using e(1-4) r by blast
qed

lemma updateStatus_success_history:
  assumes "currentNumber ui = Some cur"
    and "userId ui = Some operatorId" "operatorId \<noteq> []"
    and "update_error env = None" "insert_error env = None"
    and run: "updateStatus outcome env (ui, d) = (ui', d')"
  shows "phone_calls_history d' = phone_calls_history d @
           [\<lparr>id_h = new_history_id env, phone_number_id_h = id_n cur,
             operator_id_h = operatorId, status_h = outcome, called_at_h = now_insert env\<rparr>]"
proof -
  define d2 where "d2 = d\<lparr>phone_numbers :=
      update_status_row outcome (now_update env) (id_n cur) (phone_numbers d),
    phone_calls_history := insert_history (new_history_id env) (id_n cur) operatorId outcome
      (now_insert env) (phone_calls_history d)\<rparr>"
  define ui1 where "ui1 = ui\<lparr>toasts := toasts ui @ [Plain ''Call status updated successfully'']\<rparr>"
  have "fetchNextNumber (next_select_error env) (next_assign_error env) (ui1, d2) = (ui', d')"
    using run assms(1-5) unfolding updateStatus_def d2_def ui1_def
    by (simp add: truthy_def Let_def)
  then obtain res where "fetchNextNumber_try (userId ui1) (next_select_error env) (next_assign_error env) d2 = (res, d')"
    by (auto simp: fetchNextNumber_def split: prod.splits sum.splits)
  from fetchNextNumber_try_effect [OF this] have "phone_calls_history d' = phone_calls_history d2"
    by auto
  then show ?thesis by (simp add: d2_def insert_history_def)
qed

text \<open>
  C6, amended. The history row created by a successful \<open>updateStatus\<close> refers to the
  number by its id; whenever that row is listed later, the entry reports the phone number
  and name that the row of \<open>phone_numbers\<close> with that id has in the store at that time.
\<close>

theorem history_reports_current_display_info:
  assumes "currentNumber ui = Some cur"
    and "userId ui = Some operatorId" "operatorId \<noteq> []"
    and "update_error env = None" "insert_error env = None"
    and run: "updateStatus outcome env (ui, d) = (ui', d')"
    and later: "last (phone_calls_history d') \<in> set (phone_calls_history d2)"
    and list: "fetchHistory_try operatorId None d2 = Inr es"
  shows "phone_number_id_h (last (phone_calls_history d')) = id_n cur \<and>
         (\<exists>e\<in>set es. \<exists>r.
            id_e e = new_history_id env \<and> status_e e = outcome \<and>
            find (\<lambda>r. id_n r = id_n cur) (phone_numbers d2) = Some r \<and>
            phone_number_e e = phone_number_n r \<and> name_e e = name_n r)"
proof -
  define h where "h = \<lparr>id_h = new_history_id env, phone_number_id_h = id_n cur,
             operator_id_h = operatorId, status_h = outcome, called_at_h = now_insert env\<rparr>"
  have "phone_calls_history d' = phone_calls_history d @ [h]"
    unfolding h_def using assms(1-5) run by (rule updateStatus_success_history)
  then have l: "last (phone_calls_history d') = h" by simp
  then have "h \<in> set (phone_calls_history d2)" using later by simp
  moreover have "operator_id_h h = operatorId" by (simp add: h_def)
  ultimately obtain e r where "e \<in> set es" "id_e e = id_h h" "status_e e = status_h h"
    "find (\<lambda>r. id_n r = phone_number_id_h h) (phone_numbers d2) = Some r"
    "phone_number_e e = phone_number_n r" "name_e e = name_n r"
    using history_entry_of_row [OF list] by blast
  then have "\<exists>e\<in>set es. \<exists>r.
            id_e e = new_history_id env \<and> status_e e = outcome \<and>
            find (\<lambda>r. id_n r = id_n cur) (phone_numbers d2) = Some r \<and>
            phone_number_e e = phone_number_n r \<and> name_e e = name_n r"
    by (auto simp: h_def)
  moreover have "phone_number_id_h (last (phone_calls_history d')) = id_n cur"
    by (simp add: l h_def)
  ultimately show ?thesis by blast
qed


theorem history_reports_current_display_info_witness:
  "phone_number_id_h (last (phone_calls_history store_after_call)) = id_n number_alice_opA \<and>
   fetchHistory_try ''opA'' None store_renamed =
     Inr [entry_h1\<lparr>phone_number_e := ''+15550000'', name_e := ''Alicia''\<rparr>]"
proof -
  have h1: "currentNumber dashboard_calling = Some number_alice_opA"
    and h2: "userId dashboard_calling = Some ''opA''" and h3: "''opA'' \<noteq> []"
    and h4: "update_error env_ok = None" and h5: "insert_error env_ok = None"
    by (simp_all add: dashboard_calling_def env_ok_def)
  have run: "updateStatus answered env_ok (dashboard_calling, pool_calling) =
      (\<lparr>currentNumber = Some number_bob, userId = Some ''opA'',
        toasts = [Plain ''Call status updated successfully'']\<rparr>, store_after_call)"
    by (simp add: updateStatus_example_run store_after_call_def)
  have later: "last (phone_calls_history store_after_call) \<in> set (phone_calls_history store_renamed)"
    by (simp add: store_after_call_def store_renamed_def)
  have list: "fetchHistory_try ''opA'' None store_renamed =
      Inr [entry_h1\<lparr>phone_number_e := ''+15550000'', name_e := ''Alicia''\<rparr>]"
    by (simp add: history_query_defs history_example_defs example_defs)
  from history_reports_current_display_info [OF h1 h2 h3 h4 h5 run later list] list
  show ?thesis by blast
qed

section \<open>Properties of the history search\<close>

lemma includes_str_sublist: "includes_str s q = sublist q s"
  by (induction s) (simp_all add: sublist_Cons_right)

lemma includes_str_iff: "includes_str s q \<longleftrightarrow> (\<exists>pre post. s = pre @ q @ post)"
  by (simp add: includes_str_sublist sublist_def)

lemma includes_str_same_length:
  assumes "includes_str s q" and "length q = length s"
  shows "q = s"
proof -
  from assms(1) obtain pre post where s: "s = pre @ q @ post"
    unfolding includes_str_iff by blast
  with assms(2) have "pre = []" "post = []" by simp_all
  with s show ?thesis by simp
qed

lemma entry_matches_iff:
  "entry_matches toLowerCase q entry \<longleftrightarrow>
     (\<exists>pre post. toLowerCase (name_e entry) = pre @ toLowerCase q @ post) \<or>
     (\<exists>pre post. phone_number_e entry = pre @ q @ post)"
  by (simp add: entry_matches_def includes_str_iff)

text \<open>
  C9. Whatever \<open>toLowerCase\<close> does, the search keeps exactly the entries for which the
  lower-cased query occurs in the lower-cased name, or the query itself, unchanged, occurs
  in the phone number. On the name the case of the query does not count: an entry found
  through its name is found by every query with the same lower-case form. On the number it
  does: an entry kept for a query that is as long as its phone number and differs from it
  is kept because of its name.
\<close>

theorem filteredHistory_asymmetric:
  "filteredHistory toLowerCase c =
     filter (\<lambda>entry.
        (\<exists>pre post. toLowerCase (name_e entry) = pre @ toLowerCase (searchQuery c) @ post) \<or>
        (\<exists>pre post. phone_number_e entry = pre @ searchQuery c @ post)) (history c) \<and>
   (\<forall>q' entry. toLowerCase q' = toLowerCase (searchQuery c) \<and> entry \<in> set (history c) \<and>
      (\<exists>pre post. toLowerCase (name_e entry) = pre @ toLowerCase (searchQuery c) @ post) \<longrightarrow>
      entry \<in> set (filteredHistory toLowerCase (c\<lparr>searchQuery := q'\<rparr>))) \<and>
   (\<forall>entry. entry \<in> set (filteredHistory toLowerCase c) \<and>
      length (searchQuery c) = length (phone_number_e entry) \<and>
      searchQuery c \<noteq> phone_number_e entry \<longrightarrow>
      (\<exists>pre post. toLowerCase (name_e entry) = pre @ toLowerCase (searchQuery c) @ post))"
proof (intro conjI allI impI)
  have "entry_matches toLowerCase (searchQuery c) =
      (\<lambda>entry.
        (\<exists>pre post. toLowerCase (name_e entry) = pre @ toLowerCase (searchQuery c) @ post) \<or>
        (\<exists>pre post. phone_number_e entry = pre @ searchQuery c @ post))"
    by (rule ext) (rule entry_matches_iff)
  then show "filteredHistory toLowerCase c =
     filter (\<lambda>entry.
        (\<exists>pre post. toLowerCase (name_e entry) = pre @ toLowerCase (searchQuery c) @ post) \<or>
        (\<exists>pre post. phone_number_e entry = pre @ searchQuery c @ post)) (history c)"
    by (simp add: filteredHistory_def)
next
  fix q' entry
  assume a: "toLowerCase q' = toLowerCase (searchQuery c) \<and> entry \<in> set (history c) \<and>
      (\<exists>pre post. toLowerCase (name_e entry) = pre @ toLowerCase (searchQuery c) @ post)"
  then have "entry_matches toLowerCase q' entry"
    unfolding entry_matches_iff by simp
  with a show "entry \<in> set (filteredHistory toLowerCase (c\<lparr>searchQuery := q'\<rparr>))"
    by (simp add: filteredHistory_def)
next
  fix entry
  assume a: "entry \<in> set (filteredHistory toLowerCase c) \<and>
      length (searchQuery c) = length (phone_number_e entry) \<and>
      searchQuery c \<noteq> phone_number_e entry"
  then have m: "entry_matches toLowerCase (searchQuery c) entry"
    by (simp add: filteredHistory_def)
  have "\<not> includes_str (phone_number_e entry) (searchQuery c)"
    using a includes_str_same_length [of "phone_number_e entry" "searchQuery c"] by blast
  with m have "includes_str (toLowerCase (name_e entry)) (toLowerCase (searchQuery c))"
    by (simp add: entry_matches_def)
  then show "\<exists>pre post. toLowerCase (name_e entry) = pre @ toLowerCase (searchQuery c) @ post"
    by (simp add: includes_str_iff)
qed

theorem filteredHistory_asymmetric_witness:
  "filteredHistory toLowerCase_ascii (callHistory_search ''LIC'') = [entry_extension] \<and>
   entry_extension \<in> set (filteredHistory toLowerCase_ascii (callHistory_search ''lIc'')) \<and>
   filteredHistory toLowerCase_ascii (callHistory_search ''x9'') = [entry_extension] \<and>
   filteredHistory toLowerCase_ascii (callHistory_search ''X9'') = [] \<and>
   filteredHistory toLowerCase_ascii (callHistory_search ''+15555679'') = []"
proof -
  note w = filteredHistory_asymmetric [of toLowerCase_ascii "callHistory_search ''LIC''"]
  have lc: "toLowerCase_ascii ''lIc'' = toLowerCase_ascii (searchQuery (callHistory_search ''LIC''))"
    by code_simp
  have mem: "entry_extension \<in> set (history (callHistory_search ''LIC''))"
    by (simp add: callHistory_search_def)
  have "includes_str (toLowerCase_ascii (name_e entry_extension))
          (toLowerCase_ascii (searchQuery (callHistory_search ''LIC'')))"
    by code_simp
  then have name: "\<exists>pre post. toLowerCase_ascii (name_e entry_extension) =
      pre @ toLowerCase_ascii (searchQuery (callHistory_search ''LIC'')) @ post"
    by (simp add: includes_str_iff)
  from w lc mem name
  have "entry_extension \<in> set (filteredHistory toLowerCase_ascii
          ((callHistory_search ''LIC'')\<lparr>searchQuery := ''lIc''\<rparr>))"
    by blast
  then have a: "entry_extension \<in> set (filteredHistory toLowerCase_ascii (callHistory_search ''lIc''))"
    by (simp add: callHistory_search_def)
  have b: "filteredHistory toLowerCase_ascii (callHistory_search ''LIC'') = [entry_extension]"
    by code_simp
  have c: "filteredHistory toLowerCase_ascii (callHistory_search ''x9'') = [entry_extension]"
    by code_simp
  have d: "filteredHistory toLowerCase_ascii (callHistory_search ''X9'') = []"
    by code_simp
  have e: "filteredHistory toLowerCase_ascii (callHistory_search ''+15555679'') = []"
    by code_simp
  show ?thesis using a b c d e by simp
qed

end
